theory Spec2Isabelle
  imports Main "HOL-Library.Char_ord" "HOL-Library.List_Lexorder"
begin

section \<open>The PPE detection application (app.py)\<close>

text \<open>
  The application calls an external detector, then finds the detector's output on disk by
  scanning the directory \<^verbatim>\<open>runs/detect\<close>, and renders pages from what it found.
  The detector is an opaque collaborator and is a parameter of the model; the directory
  scan, the inspection of the detection records and the page rendering are translated
  from the source.
\<close>

subsection \<open>Exceptions\<close>

text \<open>
  The model has a branch for each of these places where the Python can raise:
  \<^verbatim>\<open>max\<close> of an empty sequence (ValueError), index 0 of an empty list (IndexError), a
  dictionary lookup of a missing key (KeyError, carrying the key), subscripting None
  (TypeError), and the operating system refusing \<^verbatim>\<open>os.path.getmtime\<close> or \<^verbatim>\<open>open\<close>
  (OSError, which stands for its subclasses such as FileNotFoundError and
  IsADirectoryError). The call of the detector and the calls that emit widgets are taken
  to return.
\<close>

datatype key = KStr string | KInt int

datatype error = ValueError | IndexError | KeyError key | TypeError | OSError

subsection \<open>The output root\<close>

text \<open>
  One entry of \<^verbatim>\<open>runs/detect\<close>: its name; what it is, a directory with the names inside
  it in the order in which the directory scan yields them, or anything else (a regular
  file, a dangling symbolic link); its modification time as \<^verbatim>\<open>os.path.getmtime\<close>
  reports it, or None when that call raises (a dangling link, an entry removed since the
  scan); and, for an entry whose name holds a pattern character of glob, what the file
  system gives for the patterns of lines 24 to 33 and 58 to 60 (see \<open>glob_ext\<close>). Only the
  order of the modification times is used. The output root is the list of its entries in
  scan order; it is empty also when the root does not exist.
\<close>

datatype node = Directory "string list" | NotDirectory

record dir_entry =
  name :: string
  node :: node
  mtime :: "int option"
  pattern_matches :: "string \<Rightarrow> (string \<times> string) list"

type_synonym output_root = "dir_entry list"

definition listing :: "dir_entry \<Rightarrow> string list" where
  "listing d = (case node d of Directory ns \<Rightarrow> ns | NotDirectory \<Rightarrow> [])"

definition getmtime :: "dir_entry \<Rightarrow> error + int" where
  "getmtime d = (case mtime d of None \<Rightarrow> Inl OSError | Some t \<Rightarrow> Inr t)"

definition ishidden :: "string \<Rightarrow> bool" where
  "ishidden n = (case n of [] \<Rightarrow> False | c # _ \<Rightarrow> c = CHR ''.'')"

definition ends_with :: "string \<Rightarrow> string \<Rightarrow> bool" where
  "ends_with s n = (length s \<le> length n \<and> drop (length n - length s) n = s)"

text \<open>
  \<^verbatim>\<open>glob.glob("runs/detect/*")\<close>: every entry whose name does not start with a dot,
  of whatever kind, in scan order (glob does not sort).
\<close>

definition glob_star :: "output_root \<Rightarrow> dir_entry list" where
  "glob_star root = filter (\<lambda>d. \<not> ishidden (name d)) root"

definition folder_path :: "dir_entry \<Rightarrow> string" where
  "folder_path d = ''runs/detect/'' @ name d"

text \<open>
  The file names that the pattern \<^verbatim>\<open>*.ext\<close> matches in a folder: not hidden and ending
  in \<^verbatim>\<open>.ext\<close>, in scan order. Below an entry that is not a directory nothing matches.
\<close>

definition fnmatch_ext :: "string \<Rightarrow> string \<Rightarrow> bool" where
  "fnmatch_ext ext n = (\<not> ishidden n \<and> ends_with (CHR ''.'' # ext) n)"

definition matching :: "dir_entry \<Rightarrow> string \<Rightarrow> string list" where
  "matching d ext = filter (fnmatch_ext ext) (listing d)"

text \<open>
  glob treats a path as a pattern when it holds one of the characters \<^verbatim>\<open>*\<close>, \<^verbatim>\<open>?\<close>
  and \<^verbatim>\<open>[\<close>.
\<close>

definition has_magic :: "string \<Rightarrow> bool" where
  "has_magic s = list_ex (\<lambda>c. c = CHR ''*'' \<or> c = CHR ''?'' \<or> c = CHR ''['') s"

text \<open>
  \<^verbatim>\<open>glob.glob(os.path.join(latest_folder, "*.ext"))\<close>. When the folder's path holds no
  pattern character, these are the paths of the matching names in that folder. Otherwise
  glob reads the folder's path as a pattern too, and matches it against the directories of
  the output root: the result is then the paths of the pairs of a folder name and a file
  name that the entry records for the extension.
\<close>

definition glob_ext :: "dir_entry \<Rightarrow> string \<Rightarrow> string list" where
  "glob_ext d ext =
     (if has_magic (folder_path d)
      then map (\<lambda>(f, n). ''runs/detect/'' @ f @ ''/'' @ n) (pattern_matches d ext)
      else map (\<lambda>n. folder_path d @ ''/'' @ n) (matching d ext))"

text \<open>
  Python's \<^verbatim>\<open>max(xs, key=f)\<close>: the first element whose key is greatest (a later element
  replaces the current one only when its key is strictly greater); ValueError on an empty
  sequence. The key is computed for each element in turn, and an exception of the key
  function ends the call.
\<close>

fun max_from :: "('a \<Rightarrow> error + int) \<Rightarrow> 'a \<Rightarrow> int \<Rightarrow> 'a list \<Rightarrow> error + 'a" where
  "max_from f best kbest [] = Inr best"
| "max_from f best kbest (x # xs) =
     (case f x of
        Inl e \<Rightarrow> Inl e
      | Inr k \<Rightarrow> if kbest < k then max_from f x k xs else max_from f best kbest xs)"

definition py_max :: "('a \<Rightarrow> error + int) \<Rightarrow> 'a list \<Rightarrow> error + 'a" where
  "py_max f xs =
     (case xs of
        [] \<Rightarrow> Inl ValueError
      | x # rest \<Rightarrow> (case f x of Inl e \<Rightarrow> Inl e | Inr k \<Rightarrow> max_from f x k rest))"

definition index0 :: "'a list \<Rightarrow> error + 'a" where
  "index0 xs = (case xs of [] \<Rightarrow> Inl IndexError | x # _ \<Rightarrow> Inr x)"

subsection \<open>The output locator of process_video\<close>

record video_out =
  video :: string
  images :: "string list"

text \<open>Lines 24 to 26 and 31 to 33: the preferred extension, then the fallback.\<close>

definition glob_pref :: "dir_entry \<Rightarrow> string \<Rightarrow> string \<Rightarrow> string list" where
  "glob_pref d ext1 ext2 =
     (let files = glob_ext d ext1 in if files = [] then glob_ext d ext2 else files)"

definition locate_video :: "output_root \<Rightarrow> error + video_out option" where
  "locate_video root =
     (let output_folders = glob_star root in
      if output_folders = [] then Inr None
      else case py_max getmtime output_folders of
        Inl e \<Rightarrow> Inl e
      | Inr latest_folder \<Rightarrow>
          (let video_files = glob_pref latest_folder ''mp4'' ''avi'' in
           if video_files = [] then Inr None
           else case index0 video_files of
             Inl e \<Rightarrow> Inl e
           | Inr processed_video \<Rightarrow>
               (let image_files = sort (glob_pref latest_folder ''jpg'' ''png'');
                    sample_images = take 3 image_files
                in Inr (Some \<lparr>video = processed_video, images = sample_images\<rparr>))))"

subsection \<open>The output locator of process_image\<close>

definition locate_image :: "output_root \<Rightarrow> error + string option" where
  "locate_image root =
     (let output_folders = glob_star root in
      if output_folders = [] then Inr None
      else case py_max getmtime output_folders of
        Inl e \<Rightarrow> Inl e
      | Inr latest_folder \<Rightarrow>
          (let image_files = glob_pref latest_folder ''jpg'' ''png'' in
           if image_files = [] then Inr None
           else case index0 image_files of
             Inl e \<Rightarrow> Inl e
           | Inr processed_image_path \<Rightarrow> Inr (Some processed_image_path)))"

subsection \<open>The detector and its results\<close>

text \<open>
  One element of the list that \<^verbatim>\<open>model.predict\<close> returns: its boxes (or None), the
  class index of every box (or None), and the dictionary from class index to class name.
  The class indices are modelled as the integers that \<^verbatim>\<open>int(cls)\<close> yields.
\<close>

record yolo_boxes =
  cls :: "int list option"

record yolo_result =
  boxes :: "yolo_boxes option"
  names :: "int \<rightharpoonup> string"

text \<open>
  The detector is a parameter: given the source path and the output root it returns its
  results and the output root as it is when the locator runs.
\<close>

type_synonym detector = "string \<Rightarrow> output_root \<Rightarrow> yolo_result list \<times> output_root"

type_synonym detection_info = "string \<rightharpoonup> bool"

text \<open>Line 71: the list comprehension; a class index without a name raises KeyError.\<close>

fun class_names :: "(int \<rightharpoonup> string) \<Rightarrow> int list \<Rightarrow> error + string list" where
  "class_names nm [] = Inr []"
| "class_names nm (c # cs) =
     (case nm c of
        None \<Rightarrow> Inl (KeyError (KInt c))
      | Some s \<Rightarrow> (case class_names nm cs of Inl e \<Rightarrow> Inl e | Inr ss \<Rightarrow> Inr (s # ss)))"

definition set_flags :: "string list \<Rightarrow> detection_info" where
  "set_flags detected_classes =
     (let info = [''mask'' \<mapsto> False, ''helmet'' \<mapsto> False];
          info = (if ''mask'' \<in> set detected_classes then info(''mask'' \<mapsto> True) else info);
          info = (if ''helmet'' \<in> set detected_classes then info(''helmet'' \<mapsto> True) else info)
      in info)"

text \<open>Lines 66 to 75.\<close>

definition detection_info_of :: "yolo_result list \<Rightarrow> error + detection_info" where
  "detection_info_of results =
     (case results of
        [] \<Rightarrow> Inr (set_flags [])
      | r # _ \<Rightarrow>
          (case boxes r of
             None \<Rightarrow> Inr (set_flags [])
           | Some b \<Rightarrow>
               (case cls b of
                  None \<Rightarrow> Inr (set_flags [])
                | Some cs \<Rightarrow>
                    (case class_names (names r) cs of
                       Inl e \<Rightarrow> Inl e
                     | Inr detected_classes \<Rightarrow> Inr (set_flags detected_classes)))))"

text \<open>
  What the detector guarantees about a result: every class index it reports for a box is a
  key of the result's dictionary of names.
\<close>

definition classes_named :: "yolo_result list \<Rightarrow> bool" where
  "classes_named results =
     (case results of
        [] \<Rightarrow> True
      | r # _ \<Rightarrow>
          (case boxes r of
             None \<Rightarrow> True
           | Some b \<Rightarrow>
               (case cls b of
                  None \<Rightarrow> True
                | Some cs \<Rightarrow> list_all (\<lambda>c. names r c \<noteq> None) cs)))"

subsection \<open>process_video and process_image\<close>

text \<open>
  Both return their value (or the exception raised) together with the output root the
  detector left behind. The sleep after the detector call has no effect in the model.
  process_video does not look at the detector's results.
\<close>

definition process_video ::
  "detector \<Rightarrow> string \<Rightarrow> output_root \<Rightarrow> (error + video_out option) \<times> output_root" where
  "process_video predict video_path root =
     (let (results, root') = predict video_path root in (locate_video root', root'))"

definition process_image ::
  "detector \<Rightarrow> string \<Rightarrow> output_root \<Rightarrow>
     (error + string option \<times> detection_info option) \<times> output_root" where
  "process_image predict image_path root =
     (let (results, root') = predict image_path root in
      case locate_image root' of
        Inl e \<Rightarrow> (Inl e, root')
      | Inr None \<Rightarrow> (Inr (None, None), root')
      | Inr (Some processed_image_path) \<Rightarrow>
          (case detection_info_of results of
             Inl e \<Rightarrow> (Inl e, root')
           | Inr info \<Rightarrow> (Inr (Some processed_image_path, Some info), root')))"

text \<open>
  The locator reads the output root and does not write it: a run of the locator logic
  returns its selection and the unchanged root.
\<close>

definition run_locate_video :: "output_root \<Rightarrow> (error + video_out option) \<times> output_root" where
  "run_locate_video root = (locate_video root, root)"

definition run_locate_image :: "output_root \<Rightarrow> (error + string option) \<times> output_root" where
  "run_locate_image root = (locate_image root, root)"

subsection \<open>The pages\<close>

text \<open>
  A page run yields the sequence of widgets it has emitted and the exception that ended
  it, if any (None when the page ran to its end). Pictographs outside ASCII and the
  indentation inside the literals are left out of the caption strings.
\<close>

datatype widget =
    St_title string
  | St_write string
  | St_subheader string
  | St_markdown string
  | St_video string
  | St_image string
  | St_image_caption string string
  | St_download_button string string string string
  | St_success string
  | St_warning string
  | St_error string

fun join :: "string \<Rightarrow> string list \<Rightarrow> string" where
  "join sep [] = []"
| "join sep [x] = x"
| "join sep (x # y # ys) = x @ sep @ join sep (y # ys)"

definition basename :: "string \<Rightarrow> string" where
  "basename p = rev (takeWhile (\<lambda>c. c \<noteq> CHR ''/'') (rev p))"

definition lookup :: "detection_info \<Rightarrow> string \<Rightarrow> error + bool" where
  "lookup d k = (case d k of None \<Rightarrow> Inl (KeyError (KStr k)) | Some v \<Rightarrow> Inr v)"

text \<open>Lines 168 to 171.\<close>

definition verdict :: "string list \<Rightarrow> widget" where
  "verdict missing =
     (if missing \<noteq> [] then St_error (''Warning: No '' @ join '' and '' missing @ '' detected!'')
      else St_success ''All required PPE detected!'')"

text \<open>
  Lines 157 to 173. The truth test of line 157 holds for a non-empty path. Subscripting
  None raises a TypeError.
\<close>

definition render_image :: "string option \<Rightarrow> detection_info option \<Rightarrow> widget list \<times> error option" where
  "render_image processed_img detection_info =
     (case processed_img of
        None \<Rightarrow> ([St_error ''Error: Could not process the image. Please try again.''], None)
      | Some p \<Rightarrow>
          if p = [] then
            ([St_error ''Error: Could not process the image. Please try again.''], None)
          else
            (let shown = [St_markdown ''<h4> Detected Results:</h4>'', St_image p] in
             case detection_info of
               None \<Rightarrow> (shown, Some TypeError)
             | Some info \<Rightarrow>
                 (case lookup info ''mask'' of
                    Inl e \<Rightarrow> (shown, Some e)
                  | Inr m \<Rightarrow>
                      (let missing = (if \<not> m then [''mask''] else []) in
                       case lookup info ''Hardhat'' of
                         Inl e \<Rightarrow> (shown, Some e)
                       | Inr h \<Rightarrow>
                           (let missing = (if \<not> h then missing @ [''Hardhat''] else missing)
                            in (shown @ [verdict missing], None))))))"

text \<open>Lines 146 to 173, once a file has been uploaded to the temporary path.\<close>

definition image_page ::
  "detector \<Rightarrow> string \<Rightarrow> output_root \<Rightarrow> (widget list \<times> error option) \<times> output_root" where
  "image_page predict img_temp root =
     (let shown = [St_title '' PPE Detection System - Image'',
                   St_write ''Upload an image file (jpg or png) to detect PPE using the YOLO model.'',
                   St_markdown ''<h4> Uploaded Image:</h4>'',
                   St_image img_temp]
      in case process_image predict img_temp root of
        (Inl e, root') \<Rightarrow> ((shown, Some e), root')
      | (Inr (processed_img, detection_info), root') \<Rightarrow>
          (let (ws, out) = render_image processed_img detection_info
           in ((shown @ ws, out), root')))"

definition recommendations :: string where
  "recommendations =
     ''- **Lighting & Angle:** Ensure the camera angle and lighting provide a clear view of the personnel.'' @
     [CHR 0x0A] @
     ''- **Model Calibration:** Adjust the detection confidence threshold if you experience too many false positives/negatives.'' @
     [CHR 0x0A] @
     ''- **Training Data:** Consider including more varied examples of PPE in different environments to improve detection accuracy.'' @
     [CHR 0x0A] @
     ''- **Regular Updates:** Update the model periodically with new data to adapt to changing conditions on the site.''"

text \<open>
  Opening and reading a file at the time the page runs: the bytes of the file at a path,
  or the exception of \<^verbatim>\<open>open\<close> (the path is gone, is a directory, is not readable).
\<close>

type_synonym file_reader = "string \<Rightarrow> error + string"

text \<open>
  Lines 108 to 135. The success message is shown before the processed video is opened and
  read (lines 111 and 112); an exception there ends the page. The download button carries
  its label, the bytes read, the file name and the MIME type.
\<close>

definition render_video :: "file_reader \<Rightarrow> video_out option \<Rightarrow> widget list \<times> error option" where
  "render_video read_file processed_data =
     (case processed_data of
        Some r \<Rightarrow>
          (case read_file (video r) of
             Inl e \<Rightarrow> ([St_success ''Video processed successfully!''], Some e)
           | Inr processed_video_bytes \<Rightarrow>
               ([St_success ''Video processed successfully!'',
                 St_download_button ''Download Processed Video'' processed_video_bytes
                   ''processed_video.mp4'' ''video/mp4'']
                @ (if images r \<noteq> [] then
                     St_subheader ''Sample Processed Images''
                     # map (\<lambda>img_file. St_image_caption img_file (basename img_file)) (images r)
                   else [St_warning ''No processed images found to display.''])
                @ [St_subheader ''Recommendations'', St_markdown recommendations], None))
      | None \<Rightarrow>
          ([St_error ''Error: Could not locate the processed video. Please try again.''], None))"

text \<open>
  Lines 96 to 135, once a file has been uploaded: the session keeps the processed data,
  and process_video runs only while the session holds none.
\<close>

record video_page_result =
  emitted :: "widget list"
  ended :: "error option"
  processed_data :: "video_out option"
  root_after :: output_root

definition video_page ::
  "detector \<Rightarrow> file_reader \<Rightarrow> string \<Rightarrow> video_out option \<Rightarrow> output_root \<Rightarrow>
     video_page_result" where
  "video_page predict read_file tfile session root =
     (let head = [St_title ''PPE Detection on Construction Sites - Video'',
                  St_write ''Upload a video file (mp4 or avi) to detect PPE using the YOLO model.'',
                  St_subheader ''Original Uploaded Video'',
                  St_video tfile]
      in case session of
        Some r \<Rightarrow>
          (let (ws, out) = render_video read_file (Some r) in
           \<lparr>emitted = head @ ws, ended = out, processed_data = Some r, root_after = root\<rparr>)
      | None \<Rightarrow>
          (case process_video predict tfile root of
             (Inl e, root') \<Rightarrow>
               \<lparr>emitted = head, ended = Some e, processed_data = None, root_after = root'\<rparr>
           | (Inr data, root') \<Rightarrow>
               (let (ws, out) = render_video read_file data in
                \<lparr>emitted = head @ ws, ended = out, processed_data = data,
                 root_after = root'\<rparr>)))"

subsection \<open>Derived notions and example states\<close>

text \<open>
  The names behind \<open>glob_pref\<close>: those of the preferred extension when there are any,
  else those of the fallback extension.
\<close>

definition matching_pref :: "dir_entry \<Rightarrow> string \<Rightarrow> string \<Rightarrow> string list" where
  "matching_pref d ext1 ext2 = (if matching d ext1 = [] then matching d ext2 else matching d ext1)"

text \<open>
  Entries used to evaluate the model: a run directory holding no media file, a newer one
  holding two videos and several still frames in an unsorted scan order, one holding a
  single avi, a regular file, a dangling symbolic link, and a run directory whose name
  holds a pattern character that matches no directory.
\<close>

definition quiet_run :: dir_entry where
  "quiet_run = \<lparr>name = ''predict'', node = Directory [''notes.txt''], mtime = Some 1,
                 pattern_matches = (\<lambda>ext. [])\<rparr>"

definition video_run :: dir_entry where
  "video_run = \<lparr>name = ''predict2'',
                 node = Directory [''b.mp4'', ''a.mp4'', ''z.jpg'', ''c.jpg'', ''.k.jpg'', ''m.jpg'',
                                   ''d.jpg''],
                 mtime = Some 2, pattern_matches = (\<lambda>ext. [])\<rparr>"

definition bare_run :: dir_entry where
  "bare_run = \<lparr>name = ''predict3'', node = Directory [''out.avi''], mtime = Some 3,
                pattern_matches = (\<lambda>ext. [])\<rparr>"

definition stray_file :: dir_entry where
  "stray_file = \<lparr>name = ''notes.txt'', node = NotDirectory, mtime = Some 9,
                  pattern_matches = (\<lambda>ext. [])\<rparr>"

definition dangling_link :: dir_entry where
  "dangling_link = \<lparr>name = ''latest'', node = NotDirectory, mtime = None,
                     pattern_matches = (\<lambda>ext. [])\<rparr>"

definition bracket_run :: dir_entry where
  "bracket_run = \<lparr>name = ''predict[1]'', node = Directory [''a.mp4'', ''a.jpg''], mtime = Some 5,
                   pattern_matches = (\<lambda>ext. [])\<rparr>"

text \<open>
  Detector results and the run directory of an image request: a first result in which
  both class names occur, and one whose class index has no name.
\<close>

definition both_worn :: yolo_result where
  "both_worn = \<lparr>boxes = Some \<lparr>cls = Some [0, 1]\<rparr>, names = [0 \<mapsto> ''mask'', 1 \<mapsto> ''helmet'']\<rparr>"

definition image_run :: dir_entry where
  "image_run = \<lparr>name = ''predict4'', node = Directory [''image0.jpg''], mtime = Some 4,
                 pattern_matches = (\<lambda>ext. [])\<rparr>"

definition unnamed_class :: yolo_result where
  "unnamed_class = \<lparr>boxes = Some \<lparr>cls = Some [7]\<rparr>, names = [0 \<mapsto> ''mask'']\<rparr>"

text \<open>
  Two properties of a name, written out on the characters: it starts with a dot; it ends
  with a given suffix.
\<close>

abbreviation dot_name :: "string \<Rightarrow> bool" where
  "dot_name n \<equiv> (\<exists>t. n = CHR ''.'' # t)"

abbreviation has_suffix :: "string \<Rightarrow> string \<Rightarrow> bool" where
  "has_suffix s n \<equiv> (\<exists>p. n = p @ s)"

section \<open>Properties\<close>

subsection \<open>Auxiliary facts\<close>

lemma max_from_Inr:
  "max_from f b kb xs = Inr d \<Longrightarrow> f b = Inr kb \<Longrightarrow>
   d \<in> set (b # xs) \<and>
   (\<exists>k. f d = Inr k \<and> kb \<le> k \<and> (\<forall>x\<in>set xs. \<exists>k'. f x = Inr k' \<and> k' \<le> k))"
proof (induction xs arbitrary: b kb)
  case Nil
  then show ?case by simp
next
  case (Cons x xs)
  from Cons.prems(1) obtain k where k: "f x = Inr k"
    by (cases "f x") simp_all
  show ?case
  proof (cases "kb < k")
    case True
    with Cons.prems(1) k have "max_from f x k xs = Inr d" by simp
    from Cons.IH [OF this k] True k show ?thesis by fastforce
  next
    case False
    with Cons.prems(1) k have "max_from f b kb xs = Inr d" by simp
    from Cons.IH [OF this Cons.prems(2)] False k show ?thesis by fastforce
  qed
qed

lemma py_max_Inr:
  assumes "py_max f xs = Inr d"
  shows "d \<in> set xs \<and> (\<exists>k. f d = Inr k \<and> (\<forall>x\<in>set xs. \<exists>k'. f x = Inr k' \<and> k' \<le> k))"
proof (cases xs)
  case Nil
  with assms show ?thesis by (simp add: py_max_def)
next
  case (Cons x rest)
  with assms obtain k where k: "f x = Inr k" and m: "max_from f x k rest = Inr d"
    by (cases "f x") (simp_all add: py_max_def)
  from max_from_Inr [OF m k] Cons k show ?thesis by fastforce
qed

lemma max_from_total:
  "(\<forall>x\<in>set xs. \<exists>k. f x = Inr k) \<Longrightarrow> \<exists>d. max_from f b kb xs = Inr d"
proof (induction xs arbitrary: b kb)
  case Nil
  show ?case by simp
next
  case (Cons x xs)
  then obtain k where k: "f x = Inr k" by auto
  from Cons.prems have r: "\<forall>y\<in>set xs. \<exists>k. f y = Inr k" by simp
  from Cons.IH [OF r, of x k] Cons.IH [OF r, of b kb] k show ?case by simp
qed

lemma py_max_total:
  assumes "xs \<noteq> []" and "\<forall>x\<in>set xs. \<exists>k. f x = Inr k"
  shows "\<exists>d. py_max f xs = Inr d"
proof (cases xs)
  case Nil
  with assms(1) show ?thesis by simp
next
  case (Cons x rest)
  with assms(2) obtain k where k: "f x = Inr k" by auto
  from Cons assms(2) have "\<forall>y\<in>set rest. \<exists>k. f y = Inr k" by simp
  from max_from_total [OF this, of x k] Cons k show ?thesis by (simp add: py_max_def)
qed

lemma max_from_Inl: "max_from f b kb xs = Inl e \<Longrightarrow> \<exists>x\<in>set xs. f x = Inl e"
proof (induction xs arbitrary: b kb)
  case Nil
  then show ?case by simp
next
  case (Cons x xs)
  show ?case
  proof (cases "f x")
    case (Inl e')
    with Cons.prems show ?thesis by simp
  next
    case (Inr k)
    with Cons.prems Cons.IH [of x k] Cons.IH [of b kb] show ?thesis
      by (auto split: if_splits)
  qed
qed

lemma py_max_Inl:
  assumes "py_max f xs = Inl e" and "xs \<noteq> []"
  shows "\<exists>x\<in>set xs. f x = Inl e"
proof (cases xs)
  case Nil
  with assms(2) show ?thesis by simp
next
  case (Cons x rest)
  show ?thesis
  proof (cases "f x")
    case (Inl e')
    with assms(1) Cons show ?thesis by (simp add: py_max_def)
  next
    case (Inr k)
    with assms(1) Cons have "max_from f x k rest = Inl e" by (simp add: py_max_def)
    from max_from_Inl [OF this] Cons show ?thesis by auto
  qed
qed

lemma getmtime_Inl: "getmtime d = Inl e \<longleftrightarrow> mtime d = None \<and> e = OSError"
  by (auto simp: getmtime_def split: option.splits)

lemma getmtime_Inr: "getmtime d = Inr t \<longleftrightarrow> mtime d = Some t"
  by (auto simp: getmtime_def split: option.splits)

lemma py_max_getmtime_cases:
  assumes "xs \<noteq> []"
  shows "(\<exists>d. py_max getmtime xs = Inr d) \<and> (\<forall>x\<in>set xs. mtime x \<noteq> None) \<or>
         py_max getmtime xs = Inl OSError \<and> (\<exists>x\<in>set xs. mtime x = None)"
proof (cases "py_max getmtime xs")
  case (Inl e)
  from py_max_Inl [OF Inl assms] show ?thesis using Inl by (auto simp: getmtime_Inl)
next
  case (Inr d)
  from py_max_Inr [OF Inr] show ?thesis using Inr by (fastforce simp: getmtime_Inr)
qed

lemma ends_with_iff: "ends_with s n \<longleftrightarrow> (\<exists>p. n = p @ s)"
  unfolding ends_with_def
  by (metis append_eq_conv_conj append_take_drop_id diff_add_inverse2 length_append le_add2 length_drop)

lemma ishidden_iff: "ishidden n \<longleftrightarrow> (\<exists>t. n = CHR ''.'' # t)"
  by (cases n) (auto simp: ishidden_def)

lemma has_magic_folder_path: "has_magic (folder_path d) = has_magic (name d)"
  by (simp add: has_magic_def folder_path_def)

lemma glob_ext_plain:
  "\<not> has_magic (name d) \<Longrightarrow> glob_ext d e = map (\<lambda>n. folder_path d @ ''/'' @ n) (matching d e)"
  by (simp add: glob_ext_def has_magic_folder_path)

lemma glob_ext_nonempty_paths: "p \<in> set (glob_ext d e) \<Longrightarrow> p \<noteq> []"
  by (auto simp: glob_ext_def folder_path_def split: if_splits)

lemma glob_pref_nonempty_paths: "p \<in> set (glob_pref d e1 e2) \<Longrightarrow> p \<noteq> []"
  using glob_ext_nonempty_paths by (auto simp: glob_pref_def Let_def split: if_splits)

lemma glob_ext_empty:
  "\<not> has_magic (name d) \<Longrightarrow>
   glob_ext d e = [] \<longleftrightarrow> (\<forall>n\<in>set (listing d). \<not> fnmatch_ext e n)"
  by (simp add: glob_ext_plain matching_def filter_empty_conv)

lemma glob_pref_empty:
  "\<not> has_magic (name d) \<Longrightarrow>
   glob_pref d e1 e2 = [] \<longleftrightarrow>
     (\<forall>n\<in>set (listing d). \<not> fnmatch_ext e1 n \<and> \<not> fnmatch_ext e2 n)"
  by (auto simp: glob_pref_def Let_def glob_ext_empty)

lemma py_max_nonempty: "py_max f xs = Inr d \<Longrightarrow> xs \<noteq> []"
  by (auto simp: py_max_def)

lemma locate_video_latest:
  assumes "py_max getmtime (glob_star root) = Inr d"
  shows "locate_video root =
     (if glob_pref d ''mp4'' ''avi'' = [] then Inr None
      else Inr (Some \<lparr>video = hd (glob_pref d ''mp4'' ''avi''),
                       images = take 3 (sort (glob_pref d ''jpg'' ''png''))\<rparr>))"
  using assms py_max_nonempty [OF assms]
  by (cases "glob_pref d ''mp4'' ''avi''") (simp_all add: locate_video_def Let_def index0_def)

lemma locate_image_latest:
  assumes "py_max getmtime (glob_star root) = Inr d"
  shows "locate_image root =
     (if glob_pref d ''jpg'' ''png'' = [] then Inr None
      else Inr (Some (hd (glob_pref d ''jpg'' ''png''))))"
  using assms py_max_nonempty [OF assms]
  by (cases "glob_pref d ''jpg'' ''png''") (simp_all add: locate_image_def Let_def index0_def)

lemma locate_video_empty: "glob_star root = [] \<Longrightarrow> locate_video root = Inr None"
  by (simp add: locate_video_def)

lemma locate_image_empty: "glob_star root = [] \<Longrightarrow> locate_image root = Inr None"
  by (simp add: locate_image_def)

lemma locate_video_raises:
  "glob_star root \<noteq> [] \<Longrightarrow> py_max getmtime (glob_star root) = Inl e \<Longrightarrow>
   locate_video root = Inl e"
  by (simp add: locate_video_def)

lemma locate_image_raises:
  "glob_star root \<noteq> [] \<Longrightarrow> py_max getmtime (glob_star root) = Inl e \<Longrightarrow>
   locate_image root = Inl e"
  by (simp add: locate_image_def)

lemma glob_star_empty_iff: "glob_star root = [] \<longleftrightarrow> (\<forall>e\<in>set root. \<exists>t. name e = CHR ''.'' # t)"
  by (simp add: glob_star_def filter_empty_conv ishidden_iff)

lemma glob_star_mem: "d \<in> set (glob_star root) \<longleftrightarrow> d \<in> set root \<and> \<not> (\<exists>t. name d = CHR ''.'' # t)"
  by (simp add: glob_star_def ishidden_iff)

lemma fnmatch_ext_iff:
  "fnmatch_ext e n \<longleftrightarrow> \<not> (\<exists>t. n = CHR ''.'' # t) \<and> (\<exists>p. n = p @ CHR ''.'' # e)"
  by (simp add: fnmatch_ext_def ishidden_iff ends_with_iff)

lemma append_le_cancel: "(p @ a \<le> p @ b) \<longleftrightarrow> (a \<le> (b::string))"
  by (induction p) simp_all

lemma insort_map_prefix:
  "insort (p @ x) (map ((@) p) xs) = map ((@) p) (insort (x::string) xs)"
  by (induction xs) (simp_all add: append_le_cancel)

lemma sort_map_prefix: "sort (map ((@) p) xs) = map ((@) p) (sort (xs::string list))"
  by (induction xs) (simp_all add: sort_key_simps insort_map_prefix)

lemma glob_pref_matching:
  "\<not> has_magic (name d) \<Longrightarrow>
   glob_pref d e1 e2 = map ((@) (folder_path d @ ''/'')) (matching_pref d e1 e2)"
  by (simp add: glob_pref_def matching_pref_def glob_ext_plain Let_def)

lemma process_video_fst: "fst (process_video predict p root) = locate_video (snd (predict p root))"
  by (simp add: process_video_def split: prod.splits)

lemma process_video_snd: "snd (process_video predict p root) = snd (predict p root)"
  by (simp add: process_video_def split: prod.splits)

lemma process_image_None_iff:
  "fst (process_image predict p root) = Inr (None, None) \<longleftrightarrow>
     locate_image (snd (predict p root)) = Inr None"
  by (auto simp: process_image_def split: prod.splits sum.splits option.splits)

lemma fnmatch_ext_distinct:
  "fnmatch_ext e1 n \<Longrightarrow> length e1 = length e2 \<Longrightarrow> e1 \<noteq> e2 \<Longrightarrow> \<not> fnmatch_ext e2 n"
  by (auto simp: fnmatch_ext_def ends_with_def)

lemma matching_nonempty: "matching d e \<noteq> [] \<longleftrightarrow> (\<exists>n\<in>set (listing d). fnmatch_ext e n)"
  by (simp add: matching_def filter_empty_conv)

lemma hd_glob_ext:
  assumes "\<not> has_magic (name d)" and ne: "matching d e \<noteq> []"
  shows "hd (glob_ext d e) = folder_path d @ ''/'' @ hd (matching d e) \<and>
         hd (matching d e) \<in> set (listing d) \<and> fnmatch_ext e (hd (matching d e))"
proof -
  from ne have "hd (matching d e) \<in> set (matching d e)" by simp
  then have "hd (matching d e) \<in> set (listing d) \<and> fnmatch_ext e (hd (matching d e))"
    by (simp add: matching_def)
  moreover from ne have "hd (glob_ext d e) = folder_path d @ ''/'' @ hd (matching d e)"
    by (simp add: glob_ext_plain [OF assms(1)] hd_map)
  ultimately show ?thesis by simp
qed

lemma glob_ext_Nil: "\<not> has_magic (name d) \<Longrightarrow> glob_ext d e = [] \<longleftrightarrow> matching d e = []"
  by (simp add: glob_ext_plain)

lemma glob_pref_first:
  "\<not> has_magic (name d) \<Longrightarrow> matching d e1 \<noteq> [] \<Longrightarrow> glob_pref d e1 e2 = glob_ext d e1"
  by (simp add: glob_pref_def Let_def glob_ext_Nil)

lemma glob_pref_second:
  "\<not> has_magic (name d) \<Longrightarrow> matching d e1 = [] \<Longrightarrow> glob_pref d e1 e2 = glob_ext d e2"
  by (simp add: glob_pref_def Let_def glob_ext_Nil)

lemma pick_first:
  assumes nm: "\<not> has_magic (name d)" and "\<exists>n\<in>set (listing d). fnmatch_ext e1 n"
  shows "glob_pref d e1 e2 \<noteq> [] \<and>
         (\<exists>n. n \<in> set (listing d) \<and> fnmatch_ext e1 n \<and>
              hd (glob_pref d e1 e2) = folder_path d @ ''/'' @ n)"
proof -
  from assms(2) have ne: "matching d e1 \<noteq> []" by (simp add: matching_nonempty)
  then have "glob_pref d e1 e2 = glob_ext d e1" by (rule glob_pref_first [OF nm])
  with ne hd_glob_ext [OF nm ne] show ?thesis by (auto simp: glob_ext_Nil [OF nm])
qed

lemma pick_second:
  assumes nm: "\<not> has_magic (name d)"
    and "\<forall>n\<in>set (listing d). \<not> fnmatch_ext e1 n" and "\<exists>n\<in>set (listing d). fnmatch_ext e2 n"
  shows "glob_pref d e1 e2 \<noteq> [] \<and>
         (\<exists>n. n \<in> set (listing d) \<and> fnmatch_ext e2 n \<and>
              hd (glob_pref d e1 e2) = folder_path d @ ''/'' @ n)"
proof -
  from assms(2) have e: "matching d e1 = []" by (simp add: matching_def filter_empty_conv)
  from assms(3) have ne: "matching d e2 \<noteq> []" by (simp add: matching_nonempty)
  from e have "glob_pref d e1 e2 = glob_ext d e2" by (rule glob_pref_second [OF nm])
  with ne hd_glob_ext [OF nm ne] show ?thesis by (auto simp: glob_ext_Nil [OF nm])
qed

lemma sorted_take_sort: "sorted (take n (sort (xs::string list)))"
  by (simp add: sorted_wrt_take)

lemma locate_video_Some_latest:
  assumes "locate_video root = Inr (Some r)"
  shows "\<exists>d. py_max getmtime (glob_star root) = Inr d"
proof (cases "glob_star root = []")
  case True
  with assms show ?thesis by (simp add: locate_video_empty)
next
  case False
  show ?thesis
  proof (cases "py_max getmtime (glob_star root)")
    case (Inl e)
    with False assms show ?thesis by (simp add: locate_video_raises)
  next
    case (Inr d)
    then show ?thesis by blast
  qed
qed

lemma locate_image_Some_latest:
  assumes "locate_image root = Inr (Some p)"
  shows "\<exists>d. py_max getmtime (glob_star root) = Inr d"
proof (cases "glob_star root = []")
  case True
  with assms show ?thesis by (simp add: locate_image_empty)
next
  case False
  show ?thesis
  proof (cases "py_max getmtime (glob_star root)")
    case (Inl e)
    with False assms show ?thesis by (simp add: locate_image_raises)
  next
    case (Inr d)
    then show ?thesis by blast
  qed
qed

lemma images_of_latest:
  assumes "py_max getmtime (glob_star root) = Inr d" and "locate_video root = Inr (Some r)"
  shows "images r = take 3 (sort (glob_pref d ''jpg'' ''png''))"
  using assms(2) by (auto simp: locate_video_latest [OF assms(1)] split: if_splits)

lemma render_video_readable:
  assumes "read_file (video r) = Inr bytes" and "images r = []"
  shows "render_video read_file (Some r) =
           ([St_success ''Video processed successfully!'',
             St_download_button ''Download Processed Video'' bytes
               ''processed_video.mp4'' ''video/mp4'',
             St_warning ''No processed images found to display.'',
             St_subheader ''Recommendations'', St_markdown recommendations], None)"
  using assms by (simp add: render_video_def)

lemma render_video_unreadable:
  assumes "read_file (video r) = Inl e"
  shows "render_video read_file (Some r) = ([St_success ''Video processed successfully!''], Some e)"
  using assms by (simp add: render_video_def)

lemma video_page_fresh:
  assumes "fst (process_video predict tfile root) = Inr data"
  shows "emitted (video_page predict read_file tfile None root) =
           [St_title ''PPE Detection on Construction Sites - Video'',
            St_write ''Upload a video file (mp4 or avi) to detect PPE using the YOLO model.'',
            St_subheader ''Original Uploaded Video'', St_video tfile]
           @ fst (render_video read_file data) \<and>
         ended (video_page predict read_file tfile None root) = snd (render_video read_file data)"
  using assms
  by (cases "process_video predict tfile root")
     (auto simp: video_page_def Let_def split: prod.splits)

lemma find_hd_filter: "find P xs = Some n \<Longrightarrow> filter P xs \<noteq> [] \<and> hd (filter P xs) = n"
  by (induction xs) (auto split: if_splits)

lemma verdict_not_in_render_video:
  "verdict missing \<notin> set (fst (render_video read_file data))"
  by (cases data) (auto simp: verdict_def render_video_def split: sum.splits)

lemma verdict_not_in_video_page:
  "verdict missing \<notin> set (emitted (video_page predict read_file tfile session root))"
proof (cases session)
  case (Some r)
  then show ?thesis
    using verdict_not_in_render_video [of missing read_file "Some r"]
    by (auto simp: video_page_def Let_def verdict_def split: prod.splits)
next
  case None
  obtain res root' where p: "process_video predict tfile root = (res, root')"
    by (cases "process_video predict tfile root")
  show ?thesis
  proof (cases res)
    case (Inl e)
    with None p show ?thesis by (auto simp: video_page_def Let_def verdict_def)
  next
    case (Inr data)
    with None p verdict_not_in_render_video [of missing read_file data] show ?thesis
      by (auto simp: video_page_def Let_def verdict_def split: prod.splits)
  qed
qed

lemma dom_set_flags: "dom (set_flags cs) = {''mask'', ''helmet''}"
  by (auto simp: set_flags_def Let_def)

lemma class_names_Inl:
  "class_names nm cs = Inl e \<Longrightarrow> \<exists>c\<in>set cs. nm c = None \<and> e = KeyError (KInt c)"
  by (induction cs) (auto split: option.splits sum.splits)

lemma detection_info_of_Inr:
  "detection_info_of results = Inr info \<Longrightarrow> dom info = {''mask'', ''helmet''}"
proof -
  assume "detection_info_of results = Inr info"
  then have "\<exists>cs. info = set_flags cs"
    by (auto simp: detection_info_of_def split: list.splits option.splits sum.splits)
  then show ?thesis using dom_set_flags by blast
qed

lemma detection_info_of_Inl:
  "detection_info_of results = Inl e \<Longrightarrow>
   \<exists>r rest b cs c. results = r # rest \<and> boxes r = Some b \<and> cls b = Some cs \<and>
       c \<in> set cs \<and> names r c = None \<and> e = KeyError (KInt c)"
  by (auto simp: detection_info_of_def split: list.splits option.splits sum.splits
           dest!: class_names_Inl)

lemma detection_info_of_named:
  assumes "classes_named results"
  shows "\<exists>info. detection_info_of results = Inr info"
proof (cases "detection_info_of results")
  case (Inl e)
  from detection_info_of_Inl [OF Inl] obtain r rest b cs c where
    "results = r # rest" "boxes r = Some b" "cls b = Some cs" "c \<in> set cs" "names r c = None"
    by blast
  with assms have False by (auto simp: classes_named_def list_all_iff)
  then show ?thesis ..
next
  case (Inr info)
  then show ?thesis by blast
qed

lemma locate_image_nonempty:
  assumes "locate_image root = Inr (Some p)"
  shows "p \<noteq> []"
proof -
  from locate_image_Some_latest [OF assms] obtain d where
    d: "py_max getmtime (glob_star root) = Inr d" by blast
  from assms have ne: "glob_pref d ''jpg'' ''png'' \<noteq> []" and p: "p = hd (glob_pref d ''jpg'' ''png'')"
    by (auto simp: locate_image_latest [OF d] split: if_splits)
  from ne p have "p \<in> set (glob_pref d ''jpg'' ''png'')" by simp
  then show ?thesis by (rule glob_pref_nonempty_paths)
qed

lemma process_image_cases:
  "process_image predict path root =
     (case locate_image (snd (predict path root)) of
        Inl e \<Rightarrow> (Inl e, snd (predict path root))
      | Inr None \<Rightarrow> (Inr (None, None), snd (predict path root))
      | Inr (Some p) \<Rightarrow>
          (case detection_info_of (fst (predict path root)) of
             Inl e \<Rightarrow> (Inl e, snd (predict path root))
           | Inr info \<Rightarrow> (Inr (Some p, Some info), snd (predict path root))))"
  by (cases "predict path root") (simp add: process_image_def split: sum.splits option.splits)

lemma process_image_Some:
  assumes "fst (process_image predict path root) = Inr (Some p, i)"
  shows "p \<noteq> [] \<and> (\<exists>info. i = Some info \<and> dom info = {''mask'', ''helmet''})"
proof (cases "locate_image (snd (predict path root))")
  case (Inl e)
  with assms show ?thesis by (simp add: process_image_cases)
next
  case (Inr v)
  show ?thesis
  proof (cases v)
    case None
    with Inr assms show ?thesis by (simp add: process_image_cases)
  next
    case (Some q)
    with Inr have q: "q \<noteq> []" using locate_image_nonempty by blast
    show ?thesis
    proof (cases "detection_info_of (fst (predict path root))")
      case (Inl e)
      with Inr Some assms show ?thesis by (simp add: process_image_cases)
    next
      case info: (Inr info)
      with Inr Some q assms detection_info_of_Inr [OF info] show ?thesis
        by (auto simp: process_image_cases)
    qed
  qed
qed

lemma render_image_keyerror:
  assumes "p \<noteq> []" and "dom info = {''mask'', ''helmet''}"
  shows "render_image (Some p) (Some info) =
           ([St_markdown ''<h4> Detected Results:</h4>'', St_image p],
            Some (KeyError (KStr ''Hardhat'')))"
proof -
  from assms(2) have "''mask'' \<in> dom info" by simp
  then obtain m where m: "info ''mask'' = Some m" by blast
  from assms(2) have "''Hardhat'' \<notin> dom info" by simp
  then have h: "info ''Hardhat'' = None" by blast
  from assms(1) m h show ?thesis
    by (simp add: render_image_def lookup_def Let_def)
qed

lemmas eval_defs = quiet_run_def video_run_def bare_run_def image_run_def stray_file_def
  dangling_link_def bracket_run_def locate_video_def locate_image_def glob_star_def ishidden_def
  py_max_def getmtime_def listing_def has_magic_def glob_pref_def glob_ext_def matching_def
  fnmatch_ext_def ends_with_def index0_def folder_path_def

lemma no_media_iff:
  "(\<forall>n\<in>set (listing d). \<not> fnmatch_ext e1 n \<and> \<not> fnmatch_ext e2 n) \<longleftrightarrow>
   \<not> (\<exists>n\<in>set (listing d). \<not> dot_name n \<and>
          (has_suffix (CHR ''.'' # e1) n \<or> has_suffix (CHR ''.'' # e2) n))"
  by (auto simp: fnmatch_ext_iff)

lemma locate_hidden_root:
  assumes "\<forall>e\<in>set root. dot_name (name e)"
  shows "locate_video root = Inr None \<and> locate_image root = Inr None"
  using assms by (simp add: glob_star_empty_iff locate_video_empty locate_image_empty)

lemma locate_unstatable:
  assumes "\<exists>e\<in>set root. \<not> dot_name (name e) \<and> mtime e = None"
  shows "locate_video root = Inl OSError \<and> locate_image root = Inl OSError"
proof -
  from assms obtain e where e: "e \<in> set (glob_star root)" "mtime e = None"
    by (auto simp: glob_star_mem)
  then have ne: "glob_star root \<noteq> []" by auto
  from py_max_getmtime_cases [OF ne] e have "py_max getmtime (glob_star root) = Inl OSError"
    by auto
  with ne show ?thesis by (simp add: locate_video_raises locate_image_raises)
qed

lemma locate_Inl:
  assumes "locate_video root = Inl e \<or> locate_image root = Inl e"
  shows "e = OSError \<and> (\<exists>x\<in>set root. \<not> dot_name (name x) \<and> mtime x = None)"
proof -
  from assms have ne: "glob_star root \<noteq> []"
    by (auto simp: locate_video_empty locate_image_empty)
  from py_max_getmtime_cases [OF ne] show ?thesis
  proof
    assume "(\<exists>d. py_max getmtime (glob_star root) = Inr d) \<and> (\<forall>x\<in>set (glob_star root). mtime x \<noteq> None)"
    then obtain d where "py_max getmtime (glob_star root) = Inr d" by blast
    with assms show ?thesis by (auto simp: locate_video_latest locate_image_latest split: if_splits)
  next
    assume a: "py_max getmtime (glob_star root) = Inl OSError \<and> (\<exists>x\<in>set (glob_star root). mtime x = None)"
    with ne assms have e: "e = OSError" by (auto simp: locate_video_raises locate_image_raises)
    from a obtain x where "x \<in> set (glob_star root)" "mtime x = None" by blast
    then have "x \<in> set root \<and> \<not> dot_name (name x) \<and> mtime x = None"
      by (simp add: glob_star_mem)
    then have "\<exists>x\<in>set root. \<not> dot_name (name x) \<and> mtime x = None" by blast
    with e show ?thesis by (rule conjI)
  qed
qed

lemma locate_newest:
  assumes v: "\<exists>e\<in>set root. \<not> dot_name (name e)"
    and s: "\<forall>e\<in>set root. \<not> dot_name (name e) \<longrightarrow> mtime e \<noteq> None"
  shows "\<exists>d t. py_max getmtime (glob_star root) = Inr d \<and> d \<in> set root \<and> \<not> dot_name (name d) \<and>
           mtime d = Some t \<and>
           (\<forall>e\<in>set root. \<not> dot_name (name e) \<longrightarrow> (\<exists>t'. mtime e = Some t' \<and> t' \<le> t)) \<and>
           (\<not> has_magic (name d) \<longrightarrow>
              (locate_video root = Inr None \<longleftrightarrow>
                 \<not> (\<exists>n\<in>set (listing d). \<not> dot_name n \<and>
                        (has_suffix ''.mp4'' n \<or> has_suffix ''.avi'' n))) \<and>
              (locate_image root = Inr None \<longleftrightarrow>
                 \<not> (\<exists>n\<in>set (listing d). \<not> dot_name n \<and>
                        (has_suffix ''.jpg'' n \<or> has_suffix ''.png'' n))))"
proof -
  from v have ne: "glob_star root \<noteq> []" by (simp add: glob_star_empty_iff)
  from s have "\<forall>x\<in>set (glob_star root). \<exists>k. getmtime x = Inr k"
    by (auto simp: glob_star_mem getmtime_Inr)
  from py_max_total [OF ne this] obtain d where d: "py_max getmtime (glob_star root) = Inr d"
    by blast
  from py_max_Inr [OF d] obtain t where
    m: "d \<in> set (glob_star root)" "mtime d = Some t"
       "\<forall>x\<in>set (glob_star root). \<exists>t'. mtime x = Some t' \<and> t' \<le> t"
    by (auto simp: getmtime_Inr)
  from m(1) have dm: "d \<in> set root" "\<not> dot_name (name d)" by (simp_all add: glob_star_mem)
  from m(3) have mx: "\<forall>e\<in>set root. \<not> dot_name (name e) \<longrightarrow> (\<exists>t'. mtime e = Some t' \<and> t' \<le> t)"
    by (simp add: glob_star_mem)
  have iff: "\<not> has_magic (name d) \<longrightarrow>
              (locate_video root = Inr None \<longleftrightarrow>
                 \<not> (\<exists>n\<in>set (listing d). \<not> dot_name n \<and>
                        (has_suffix ''.mp4'' n \<or> has_suffix ''.avi'' n))) \<and>
              (locate_image root = Inr None \<longleftrightarrow>
                 \<not> (\<exists>n\<in>set (listing d). \<not> dot_name n \<and>
                        (has_suffix ''.jpg'' n \<or> has_suffix ''.png'' n)))"
  proof
    assume nm: "\<not> has_magic (name d)"
    have "locate_video root = Inr None \<longleftrightarrow> glob_pref d ''mp4'' ''avi'' = []"
      by (simp add: locate_video_latest [OF d])
    moreover have "locate_image root = Inr None \<longleftrightarrow> glob_pref d ''jpg'' ''png'' = []"
      by (simp add: locate_image_latest [OF d])
    ultimately show "(locate_video root = Inr None \<longleftrightarrow>
                 \<not> (\<exists>n\<in>set (listing d). \<not> dot_name n \<and>
                        (has_suffix ''.mp4'' n \<or> has_suffix ''.avi'' n))) \<and>
              (locate_image root = Inr None \<longleftrightarrow>
                 \<not> (\<exists>n\<in>set (listing d). \<not> dot_name n \<and>
                        (has_suffix ''.jpg'' n \<or> has_suffix ''.png'' n)))"
      using no_media_iff [of d "''mp4''" "''avi''"] no_media_iff [of d "''jpg''" "''png''"]
      by (simp add: glob_pref_empty [OF nm])
  qed
  show ?thesis
  proof (intro exI conjI)
    show "py_max getmtime (glob_star root) = Inr d" by (rule d)
    show "d \<in> set root" by (rule dm(1))
    show "\<not> dot_name (name d)" by (rule dm(2))
    show "mtime d = Some t" by (rule m(2))
    show "\<forall>e\<in>set root. \<not> dot_name (name e) \<longrightarrow> (\<exists>t'. mtime e = Some t' \<and> t' \<le> t)" by (rule mx)
    show "\<not> has_magic (name d) \<longrightarrow>
              (locate_video root = Inr None \<longleftrightarrow>
                 \<not> (\<exists>n\<in>set (listing d). \<not> dot_name n \<and>
                        (has_suffix ''.mp4'' n \<or> has_suffix ''.avi'' n))) \<and>
              (locate_image root = Inr None \<longleftrightarrow>
                 \<not> (\<exists>n\<in>set (listing d). \<not> dot_name n \<and>
                        (has_suffix ''.jpg'' n \<or> has_suffix ''.png'' n)))" by (rule iff)
  qed
qed

subsection \<open>The claims\<close>

text \<open>
  Claim C1, evaluated on the code. For an image whose first result holds both class names
  and whose run directory holds image0.jpg, process_image returns both flags set, and the
  image page shows the uploaded and the processed image and then ends with the KeyError of
  line 165; no verdict is rendered, where the claim expects the success message.
\<close>

theorem both_detected_page_raises:
  "fst (process_image (\<lambda>p s. ([both_worn], s @ [image_run])) ''upload.jpg'' []) =
     Inr (Some ''runs/detect/predict4/image0.jpg'', Some [''mask'' \<mapsto> True, ''helmet'' \<mapsto> True]) \<and>
   image_page (\<lambda>p s. ([both_worn], s @ [image_run])) ''upload.jpg'' [] =
     (([St_title '' PPE Detection System - Image'',
        St_write ''Upload an image file (jpg or png) to detect PPE using the YOLO model.'',
        St_markdown ''<h4> Uploaded Image:</h4>'',
        St_image ''upload.jpg'',
        St_markdown ''<h4> Detected Results:</h4>'',
        St_image ''runs/detect/predict4/image0.jpg''],
       Some (KeyError (KStr ''Hardhat''))), [image_run])"
  by (auto simp: image_page_def render_image_def lookup_def process_image_def eval_defs
        image_run_def both_worn_def detection_info_of_def set_flags_def Let_def)

text \<open>
  Claim C2. Whenever process_image returns a processed image, the image page ends with
  KeyError for the key "Hardhat", which the detection info does not have, and shows no
  verdict message: the missing key is not taken as the category being present.
\<close>

theorem hardhat_lookup_raises:
  assumes "fst (process_image predict img root) = Inr (Some p, i)"
  shows "snd (fst (image_page predict img root)) = Some (KeyError (KStr ''Hardhat'')) \<and>
         (\<forall>missing. verdict missing \<notin> set (fst (fst (image_page predict img root))))"
proof -
  from process_image_Some [OF assms]
  obtain info where i: "i = Some info" and p: "p \<noteq> []" and d: "dom info = {''mask'', ''helmet''}"
    by auto
  obtain root' where r: "process_image predict img root = (Inr (Some p, Some info), root')"
    using assms i by (cases "process_image predict img root") simp
  have "image_page predict img root =
          (([St_title '' PPE Detection System - Image'',
             St_write ''Upload an image file (jpg or png) to detect PPE using the YOLO model.'',
             St_markdown ''<h4> Uploaded Image:</h4>'',
             St_image img,
             St_markdown ''<h4> Detected Results:</h4>'', St_image p],
            Some (KeyError (KStr ''Hardhat''))), root')"
    by (simp add: image_page_def r render_image_keyerror [OF p d])
  then show ?thesis by (simp add: verdict_def)
qed

theorem hardhat_lookup_raises_witness:
  "fst (process_image (\<lambda>p s. ([], s @ [image_run])) ''upload.jpg'' []) =
     Inr (Some ''runs/detect/predict4/image0.jpg'', Some [''mask'' \<mapsto> False, ''helmet'' \<mapsto> False]) \<and>
   snd (fst (image_page (\<lambda>p s. ([], s @ [image_run])) ''upload.jpg'' [])) =
     Some (KeyError (KStr ''Hardhat''))"
proof -
  have p: "fst (process_image (\<lambda>p s. ([], s @ [image_run])) ''upload.jpg'' []) =
     Inr (Some ''runs/detect/predict4/image0.jpg'', Some [''mask'' \<mapsto> False, ''helmet'' \<mapsto> False])"
    by (auto simp: process_image_def eval_defs image_run_def detection_info_of_def set_flags_def)
  from hardhat_lookup_raises [OF p] p show ?thesis by blast
qed

text \<open>
  Claim C3, as the code has it. When the output root holds no entry whose name does not
  start with a dot, both locators return "not found" without raising. When some such entry
  has no modification time to report, both raise OSError, and that is the only exception a
  locator raises. Otherwise the entry that \<open>py_max\<close> selects is an entry of the root, not
  hidden, and none is newer; provided its name holds no pattern character, the locator
  returns "not found" exactly when that entry, a directory or not, holds no name that does
  not start with a dot and ends in a recognised extension (.mp4 or .avi for the video
  locator, .jpg or .png for the image locator). process_video returns what the video
  locator returns, and process_image returns (None, None) exactly when the image locator
  returns "not found".
\<close>

theorem locator_not_found:
  "((\<forall>e\<in>set root. dot_name (name e)) \<longrightarrow>
      locate_video root = Inr None \<and> locate_image root = Inr None) \<and>
   ((\<exists>e\<in>set root. \<not> dot_name (name e) \<and> mtime e = None) \<longrightarrow>
      locate_video root = Inl OSError \<and> locate_image root = Inl OSError) \<and>
   (\<forall>e. locate_video root = Inl e \<or> locate_image root = Inl e \<longrightarrow>
      e = OSError \<and> (\<exists>x\<in>set root. \<not> dot_name (name x) \<and> mtime x = None)) \<and>
   ((\<exists>e\<in>set root. \<not> dot_name (name e)) \<and>
    (\<forall>e\<in>set root. \<not> dot_name (name e) \<longrightarrow> mtime e \<noteq> None) \<longrightarrow>
      (\<exists>d t. py_max getmtime (glob_star root) = Inr d \<and> d \<in> set root \<and> \<not> dot_name (name d) \<and>
           mtime d = Some t \<and>
           (\<forall>e\<in>set root. \<not> dot_name (name e) \<longrightarrow> (\<exists>t'. mtime e = Some t' \<and> t' \<le> t)) \<and>
           (\<not> has_magic (name d) \<longrightarrow>
              (locate_video root = Inr None \<longleftrightarrow>
                 \<not> (\<exists>n\<in>set (listing d). \<not> dot_name n \<and>
                        (has_suffix ''.mp4'' n \<or> has_suffix ''.avi'' n))) \<and>
              (locate_image root = Inr None \<longleftrightarrow>
                 \<not> (\<exists>n\<in>set (listing d). \<not> dot_name n \<and>
                        (has_suffix ''.jpg'' n \<or> has_suffix ''.png'' n)))))) \<and>
   fst (process_video predict path root0) = locate_video (snd (predict path root0)) \<and>
   (fst (process_image predict path root0) = Inr (None, None) \<longleftrightarrow>
      locate_image (snd (predict path root0)) = Inr None)"
proof (intro conjI)
  show "(\<forall>e\<in>set root. dot_name (name e)) \<longrightarrow>
      locate_video root = Inr None \<and> locate_image root = Inr None"
    by (rule impI) (rule locate_hidden_root)
  show "(\<exists>e\<in>set root. \<not> dot_name (name e) \<and> mtime e = None) \<longrightarrow>
      locate_video root = Inl OSError \<and> locate_image root = Inl OSError"
    by (rule impI) (rule locate_unstatable)
  show "\<forall>e. locate_video root = Inl e \<or> locate_image root = Inl e \<longrightarrow>
      e = OSError \<and> (\<exists>x\<in>set root. \<not> dot_name (name x) \<and> mtime x = None)"
    by (rule allI, rule impI) (rule locate_Inl)
  show "(\<exists>e\<in>set root. \<not> dot_name (name e)) \<and>
    (\<forall>e\<in>set root. \<not> dot_name (name e) \<longrightarrow> mtime e \<noteq> None) \<longrightarrow>
      (\<exists>d t. py_max getmtime (glob_star root) = Inr d \<and> d \<in> set root \<and> \<not> dot_name (name d) \<and>
           mtime d = Some t \<and>
           (\<forall>e\<in>set root. \<not> dot_name (name e) \<longrightarrow> (\<exists>t'. mtime e = Some t' \<and> t' \<le> t)) \<and>
           (\<not> has_magic (name d) \<longrightarrow>
              (locate_video root = Inr None \<longleftrightarrow>
                 \<not> (\<exists>n\<in>set (listing d). \<not> dot_name n \<and>
                        (has_suffix ''.mp4'' n \<or> has_suffix ''.avi'' n))) \<and>
              (locate_image root = Inr None \<longleftrightarrow>
                 \<not> (\<exists>n\<in>set (listing d). \<not> dot_name n \<and>
                        (has_suffix ''.jpg'' n \<or> has_suffix ''.png'' n)))))"
  proof (rule impI)
    assume a: "(\<exists>e\<in>set root. \<not> dot_name (name e)) \<and>
      (\<forall>e\<in>set root. \<not> dot_name (name e) \<longrightarrow> mtime e \<noteq> None)"
    from a have v: "\<exists>e\<in>set root. \<not> dot_name (name e)" by (rule conjunct1)
    from a have s: "\<forall>e\<in>set root. \<not> dot_name (name e) \<longrightarrow> mtime e \<noteq> None" by (rule conjunct2)
    show "\<exists>d t. py_max getmtime (glob_star root) = Inr d \<and> d \<in> set root \<and> \<not> dot_name (name d) \<and>
           mtime d = Some t \<and>
           (\<forall>e\<in>set root. \<not> dot_name (name e) \<longrightarrow> (\<exists>t'. mtime e = Some t' \<and> t' \<le> t)) \<and>
           (\<not> has_magic (name d) \<longrightarrow>
              (locate_video root = Inr None \<longleftrightarrow>
                 \<not> (\<exists>n\<in>set (listing d). \<not> dot_name n \<and>
                        (has_suffix ''.mp4'' n \<or> has_suffix ''.avi'' n))) \<and>
              (locate_image root = Inr None \<longleftrightarrow>
                 \<not> (\<exists>n\<in>set (listing d). \<not> dot_name n \<and>
                        (has_suffix ''.jpg'' n \<or> has_suffix ''.png'' n))))"
      by (rule locate_newest [OF v s])
  qed
  show "fst (process_video predict path root0) = locate_video (snd (predict path root0))"
    by (rule process_video_fst)
  show "fst (process_image predict path root0) = Inr (None, None) \<longleftrightarrow>
      locate_image (snd (predict path root0)) = Inr None"
    by (rule process_image_None_iff)
qed

theorem locator_not_found_witness:
  "locate_video [] = Inr None \<and> locate_image [] = Inr None \<and>
   locate_video [quiet_run, dangling_link] = Inl OSError \<and>
   locate_image [quiet_run, dangling_link] = Inl OSError \<and>
   locate_video [quiet_run] = Inr None \<and> locate_image [quiet_run] = Inr None \<and>
   locate_image [bare_run, quiet_run] = Inr None \<and>
   locate_video [bare_run, quiet_run] =
     Inr (Some \<lparr>video = ''runs/detect/predict3/out.avi'', images = []\<rparr>) \<and>
   locate_image [quiet_run, video_run] = Inr (Some ''runs/detect/predict2/z.jpg'')"
proof -
  have h: "\<forall>e\<in>set ([]::output_root). dot_name (name e)" by simp
  have a: "locate_video [] = Inr None \<and> locate_image [] = Inr None"
    by (rule locator_not_found [of "[]", THEN conjunct1, THEN mp, OF h])
  have k: "\<exists>e\<in>set [quiet_run, dangling_link]. \<not> dot_name (name e) \<and> mtime e = None"
    by (simp add: dangling_link_def)
  have b: "locate_video [quiet_run, dangling_link] = Inl OSError \<and>
           locate_image [quiet_run, dangling_link] = Inl OSError"
    by (rule locator_not_found [of "[quiet_run, dangling_link]", THEN conjunct2, THEN conjunct1,
          THEN mp, OF k])
  have c: "locate_video [quiet_run] = Inr None \<and> locate_image [quiet_run] = Inr None \<and>
           locate_image [bare_run, quiet_run] = Inr None"
    by (simp add: eval_defs)
  have d: "locate_video [bare_run, quiet_run] =
     Inr (Some \<lparr>video = ''runs/detect/predict3/out.avi'', images = []\<rparr>)"
    by (simp add: eval_defs)
  have e: "locate_image [quiet_run, video_run] = Inr (Some ''runs/detect/predict2/z.jpg'')"
    by (simp add: eval_defs)
  from a b c d e show ?thesis by simp
qed

text \<open>
  Where the claim as worded fails. A root whose only subdirectory holds videos and images
  beside a newer regular file: both locators return "not found". A root with a dangling
  link: both raise OSError. A run directory named predict[1] that holds a.mp4 and a.jpg,
  where the pattern of its path matches no directory: both return "not found".
\<close>

theorem newest_subdirectory_counterexample:
  "node video_run =
     Directory [''b.mp4'', ''a.mp4'', ''z.jpg'', ''c.jpg'', ''.k.jpg'', ''m.jpg'', ''d.jpg''] \<and>
   node stray_file = NotDirectory \<and>
   locate_video [video_run, stray_file] = Inr None \<and>
   locate_image [video_run, stray_file] = Inr None \<and>
   locate_video [video_run, dangling_link] = Inl OSError \<and>
   locate_image [video_run, dangling_link] = Inl OSError \<and>
   listing bracket_run = [''a.mp4'', ''a.jpg''] \<and>
   locate_video [bracket_run] = Inr None \<and>
   locate_image [bracket_run] = Inr None"
  by (simp add: eval_defs)

text \<open>
  Claim C4. When process_video succeeds, the sample frames are at most three paths, in
  sorted order: the first three of the sorted image paths that glob returned for the newest
  folder. When the folder's name holds no pattern character these are the paths of the
  first three of the sorted matching image names of that folder (jpg names, or png names
  when there is no jpg), so there are exactly as many as there are matching names when
  these are fewer than three, down to none. With no sample frame, and the processed video
  readable at lines 111 and 112, the video page shows the warning "No processed images
  found to display.", shows no error message and ends without an exception. When the
  processed video cannot be opened, the page ends with that exception.
\<close>

theorem sample_frames:
  assumes "fst (process_video predict tfile root) = Inr (Some r)"
  shows "length (images r) \<le> 3 \<and> sorted (images r) \<and>
         (\<exists>d. py_max getmtime (glob_star (snd (predict tfile root))) = Inr d \<and>
              images r = take 3 (sort (glob_pref d ''jpg'' ''png'')) \<and>
              (\<not> has_magic (name d) \<longrightarrow>
                 images r = map (\<lambda>n. folder_path d @ ''/'' @ n)
                              (take 3 (sort (matching_pref d ''jpg'' ''png''))) \<and>
                 length (images r) = min 3 (length (matching_pref d ''jpg'' ''png'')))) \<and>
         (images r = [] \<longrightarrow>
            (\<forall>bytes. read_file (video r) = Inr bytes \<longrightarrow>
               St_warning ''No processed images found to display.''
                 \<in> set (emitted (video_page predict read_file tfile None root)) \<and>
               (\<forall>m. St_error m \<notin> set (emitted (video_page predict read_file tfile None root))) \<and>
               ended (video_page predict read_file tfile None root) = None)) \<and>
         (\<forall>e. read_file (video r) = Inl e \<longrightarrow>
            ended (video_page predict read_file tfile None root) = Some e)"
proof -
  from assms have loc: "locate_video (snd (predict tfile root)) = Inr (Some r)"
    by (simp add: process_video_fst)
  then obtain d where d: "py_max getmtime (glob_star (snd (predict tfile root))) = Inr d"
    using locate_video_Some_latest by blast
  have im: "images r = take 3 (sort (glob_pref d ''jpg'' ''png''))"
    by (rule images_of_latest [OF d loc])
  from im have len: "length (images r) \<le> 3" by simp
  from im have srt: "sorted (images r)" by (simp add: sorted_take_sort)
  have plain: "\<not> has_magic (name d) \<longrightarrow>
                 images r = map (\<lambda>n. folder_path d @ ''/'' @ n)
                              (take 3 (sort (matching_pref d ''jpg'' ''png''))) \<and>
                 length (images r) = min 3 (length (matching_pref d ''jpg'' ''png''))"
  proof
    assume nm: "\<not> has_magic (name d)"
    have "images r = map ((@) (folder_path d @ ''/'')) (take 3 (sort (matching_pref d ''jpg'' ''png'')))"
      using im by (simp add: glob_pref_matching [OF nm] sort_map_prefix take_map)
    then show "images r = map (\<lambda>n. folder_path d @ ''/'' @ n)
                              (take 3 (sort (matching_pref d ''jpg'' ''png''))) \<and>
                 length (images r) = min 3 (length (matching_pref d ''jpg'' ''png''))"
      by (simp add: min.commute)
  qed
  have ex: "\<exists>d. py_max getmtime (glob_star (snd (predict tfile root))) = Inr d \<and>
              images r = take 3 (sort (glob_pref d ''jpg'' ''png'')) \<and>
              (\<not> has_magic (name d) \<longrightarrow>
                 images r = map (\<lambda>n. folder_path d @ ''/'' @ n)
                              (take 3 (sort (matching_pref d ''jpg'' ''png''))) \<and>
                 length (images r) = min 3 (length (matching_pref d ''jpg'' ''png'')))"
    using d im plain by (intro exI [of _ d] conjI)
  note page = video_page_fresh [OF assms, of read_file]
  have warn: "images r = [] \<longrightarrow>
            (\<forall>bytes. read_file (video r) = Inr bytes \<longrightarrow>
               St_warning ''No processed images found to display.''
                 \<in> set (emitted (video_page predict read_file tfile None root)) \<and>
               (\<forall>m. St_error m \<notin> set (emitted (video_page predict read_file tfile None root))) \<and>
               ended (video_page predict read_file tfile None root) = None)"
  proof (intro impI allI)
    fix bytes
    assume e: "images r = []" and b: "read_file (video r) = Inr bytes"
    from page render_video_readable [of read_file r bytes, OF b e]
    show "St_warning ''No processed images found to display.''
                 \<in> set (emitted (video_page predict read_file tfile None root)) \<and>
               (\<forall>m. St_error m \<notin> set (emitted (video_page predict read_file tfile None root))) \<and>
               ended (video_page predict read_file tfile None root) = None"
      by simp
  qed
  have fail: "\<forall>e. read_file (video r) = Inl e \<longrightarrow>
            ended (video_page predict read_file tfile None root) = Some e"
  proof (intro impI allI)
    fix e
    assume u: "read_file (video r) = Inl e"
    from page render_video_unreadable [of read_file r e, OF u]
    show "ended (video_page predict read_file tfile None root) = Some e" by simp
  qed
  from len srt ex warn fail show ?thesis by (intro conjI)
qed

theorem sample_frames_witness:
  "fst (process_video (\<lambda>p s. ([], s @ [video_run])) ''in.mp4'' [quiet_run]) =
     Inr (Some \<lparr>video = ''runs/detect/predict2/b.mp4'',
                images = [''runs/detect/predict2/c.jpg'', ''runs/detect/predict2/d.jpg'',
                          ''runs/detect/predict2/m.jpg'']\<rparr>) \<and>
   length (matching_pref video_run ''jpg'' ''png'') = 4 \<and>
   fst (process_video (\<lambda>p s. ([], s @ [bare_run])) ''in.mp4'' [quiet_run]) =
     Inr (Some \<lparr>video = ''runs/detect/predict3/out.avi'', images = []\<rparr>) \<and>
   St_warning ''No processed images found to display.''
     \<in> set (emitted (video_page (\<lambda>p s. ([], s @ [bare_run])) (\<lambda>p. Inr ''bytes'') ''in.mp4'' None
                 [quiet_run])) \<and>
   ended (video_page (\<lambda>p s. ([], s @ [bare_run])) (\<lambda>p. Inr ''bytes'') ''in.mp4'' None [quiet_run])
     = None \<and>
   ended (video_page (\<lambda>p s. ([], s @ [bare_run])) (\<lambda>p. Inl OSError) ''in.mp4'' None [quiet_run])
     = Some OSError"
proof -
  have p: "fst (process_video (\<lambda>p s. ([], s @ [video_run])) ''in.mp4'' [quiet_run]) =
     Inr (Some \<lparr>video = ''runs/detect/predict2/b.mp4'',
                images = [''runs/detect/predict2/c.jpg'', ''runs/detect/predict2/d.jpg'',
                          ''runs/detect/predict2/m.jpg'']\<rparr>)"
    by (simp add: process_video_def eval_defs)
  have n: "length (matching_pref video_run ''jpg'' ''png'') = 4"
    by (simp add: matching_pref_def eval_defs)
  have q: "fst (process_video (\<lambda>p s. ([], s @ [bare_run])) ''in.mp4'' [quiet_run]) =
     Inr (Some \<lparr>video = ''runs/detect/predict3/out.avi'', images = []\<rparr>)"
    by (simp add: process_video_def eval_defs)
  note t1 = sample_frames [OF q, of "\<lambda>p. Inr ''bytes''", THEN conjunct2, THEN conjunct2,
      THEN conjunct2, THEN conjunct1]
  note t2 = sample_frames [OF q, of "\<lambda>p. Inl OSError", THEN conjunct2, THEN conjunct2,
      THEN conjunct2, THEN conjunct2]
  from t1 have w: "St_warning ''No processed images found to display.''
     \<in> set (emitted (video_page (\<lambda>p s. ([], s @ [bare_run])) (\<lambda>p. Inr ''bytes'') ''in.mp4'' None
                 [quiet_run])) \<and>
   ended (video_page (\<lambda>p s. ([], s @ [bare_run])) (\<lambda>p. Inr ''bytes'') ''in.mp4'' None [quiet_run])
     = None" by simp
  from t2 have f: "ended (video_page (\<lambda>p s. ([], s @ [bare_run])) (\<lambda>p. Inl OSError) ''in.mp4'' None [quiet_run])
     = Some OSError" by simp
  from p n q w f show ?thesis by simp
qed

text \<open>
  Claim C5. The locator is idempotent: a run of the locator logic leaves the output root as
  it was, so a second run on the root left by the first returns the same selection, for
  the video locator and for the image locator.
\<close>

theorem locator_idempotent:
  "fst (run_locate_video (snd (run_locate_video root))) = fst (run_locate_video root) \<and>
   snd (run_locate_video (snd (run_locate_video root))) = root \<and>
   fst (run_locate_image (snd (run_locate_image root))) = fst (run_locate_image root) \<and>
   snd (run_locate_image (snd (run_locate_image root))) = root \<and>
   fst (run_locate_video root) = locate_video root \<and>
   fst (run_locate_image root) = locate_image root"
  by (simp add: run_locate_video_def run_locate_image_def)

theorem locator_idempotent_witness:
  "fst (run_locate_video (snd (run_locate_video [quiet_run, video_run]))) =
     Inr (Some \<lparr>video = ''runs/detect/predict2/b.mp4'',
                images = [''runs/detect/predict2/c.jpg'', ''runs/detect/predict2/d.jpg'',
                          ''runs/detect/predict2/m.jpg'']\<rparr>) \<and>
   fst (run_locate_image (snd (run_locate_image [quiet_run, video_run]))) =
     Inr (Some ''runs/detect/predict2/z.jpg'')"
  using locator_idempotent [of "[quiet_run, video_run]"]
  by (simp add: eval_defs)

text \<open>
  Claim C6, as the code has it. When the newest folder, whose name holds no pattern
  character, holds files of the preferred video extension, the processed video is the first
  mp4 name in the order in which the directory scan yields the names. The scan order is not
  sorted, so this need not be the first in path order: in \<open>video_run\<close> the scan yields
  b.mp4 before a.mp4 and b.mp4 is selected.
\<close>

theorem first_listed_video:
  assumes "py_max getmtime (glob_star root) = Inr d"
    and "\<not> has_magic (name d)"
    and "find (fnmatch_ext ''mp4'') (listing d) = Some n"
  shows "\<exists>r. locate_video root = Inr (Some r) \<and> video r = folder_path d @ ''/'' @ n"
proof -
  from find_hd_filter [OF assms(3)]
  have ne: "matching d ''mp4'' \<noteq> []" and h: "hd (matching d ''mp4'') = n"
    by (simp_all add: matching_def)
  from ne have g: "glob_pref d ''mp4'' ''avi'' = glob_ext d ''mp4''"
    by (rule glob_pref_first [OF assms(2)])
  from ne have "glob_ext d ''mp4'' \<noteq> []" by (simp add: glob_ext_Nil [OF assms(2)])
  with g h hd_glob_ext [OF assms(2) ne] show ?thesis
    by (simp add: locate_video_latest [OF assms(1)])
qed

theorem first_listed_video_witness:
  "find (fnmatch_ext ''mp4'') (listing video_run) = Some ''b.mp4'' \<and>
   (\<exists>r. locate_video [quiet_run, video_run] = Inr (Some r) \<and>
        video r = folder_path video_run @ ''/'' @ ''b.mp4'')"
proof -
  have m: "py_max getmtime (glob_star [quiet_run, video_run]) = Inr video_run"
    by (simp add: eval_defs)
  have g: "\<not> has_magic (name video_run)"
    by (simp add: eval_defs)
  have f: "find (fnmatch_ext ''mp4'') (listing video_run) = Some ''b.mp4''"
    by (simp add: eval_defs)
  from first_listed_video [OF m g f] f show ?thesis by (rule conjI [rotated])
qed

text \<open>
  The selection in \<open>video_run\<close>: the located video is b.mp4, the matches are listed as
  b.mp4, a.mp4, and the first in sorted order is a.mp4.
\<close>

theorem sorted_first_video_counterexample:
  "locate_video [video_run] =
     Inr (Some \<lparr>video = ''runs/detect/predict2/b.mp4'',
                images = [''runs/detect/predict2/c.jpg'', ''runs/detect/predict2/d.jpg'',
                          ''runs/detect/predict2/m.jpg'']\<rparr>) \<and>
   glob_ext video_run ''mp4'' = [''runs/detect/predict2/b.mp4'', ''runs/detect/predict2/a.mp4''] \<and>
   hd (sort (glob_ext video_run ''mp4'')) = ''runs/detect/predict2/a.mp4''"
  by (simp add: eval_defs)

text \<open>
  Claim C7. In the newest folder, whose name holds no pattern character, the locator
  prefers a fixed extension order: when an mp4 exists the processed video is an mp4 of that
  folder (and not an avi); an avi is returned when no mp4 exists and an avi does. Likewise
  for process_image with jpg before png.
\<close>

theorem extension_preference:
  assumes "py_max getmtime (glob_star root) = Inr d" and nm: "\<not> has_magic (name d)"
  shows
    "((\<exists>n\<in>set (listing d). fnmatch_ext ''mp4'' n) \<longrightarrow>
        (\<exists>r n. locate_video root = Inr (Some r) \<and> n \<in> set (listing d) \<and>
               fnmatch_ext ''mp4'' n \<and> \<not> fnmatch_ext ''avi'' n \<and>
               video r = folder_path d @ ''/'' @ n)) \<and>
     ((\<forall>n\<in>set (listing d). \<not> fnmatch_ext ''mp4'' n) \<and>
      (\<exists>n\<in>set (listing d). fnmatch_ext ''avi'' n) \<longrightarrow>
        (\<exists>r n. locate_video root = Inr (Some r) \<and> n \<in> set (listing d) \<and>
               fnmatch_ext ''avi'' n \<and> video r = folder_path d @ ''/'' @ n)) \<and>
     ((\<exists>n\<in>set (listing d). fnmatch_ext ''jpg'' n) \<longrightarrow>
        (\<exists>n. locate_image root = Inr (Some (folder_path d @ ''/'' @ n)) \<and>
             n \<in> set (listing d) \<and> fnmatch_ext ''jpg'' n \<and> \<not> fnmatch_ext ''png'' n)) \<and>
     ((\<forall>n\<in>set (listing d). \<not> fnmatch_ext ''jpg'' n) \<and>
      (\<exists>n\<in>set (listing d). fnmatch_ext ''png'' n) \<longrightarrow>
        (\<exists>n. locate_image root = Inr (Some (folder_path d @ ''/'' @ n)) \<and>
             n \<in> set (listing d) \<and> fnmatch_ext ''png'' n))"
proof -
  have v1: "(\<exists>n\<in>set (listing d). fnmatch_ext ''mp4'' n) \<longrightarrow>
        (\<exists>r n. locate_video root = Inr (Some r) \<and> n \<in> set (listing d) \<and>
               fnmatch_ext ''mp4'' n \<and> \<not> fnmatch_ext ''avi'' n \<and>
               video r = folder_path d @ ''/'' @ n)"
  proof
    assume "\<exists>n\<in>set (listing d). fnmatch_ext ''mp4'' n"
    from pick_first [OF nm this, of "''avi''"] obtain n where
      n: "glob_pref d ''mp4'' ''avi'' \<noteq> []" "n \<in> set (listing d)" "fnmatch_ext ''mp4'' n"
         "hd (glob_pref d ''mp4'' ''avi'') = folder_path d @ ''/'' @ n"
      by blast
    from n(3) have "\<not> fnmatch_ext ''avi'' n"
      by (rule fnmatch_ext_distinct) simp_all
    with n show "\<exists>r n. locate_video root = Inr (Some r) \<and> n \<in> set (listing d) \<and>
               fnmatch_ext ''mp4'' n \<and> \<not> fnmatch_ext ''avi'' n \<and>
               video r = folder_path d @ ''/'' @ n"
      by (auto simp add: locate_video_latest [OF assms(1)])
  qed
  have v2: "(\<forall>n\<in>set (listing d). \<not> fnmatch_ext ''mp4'' n) \<and>
      (\<exists>n\<in>set (listing d). fnmatch_ext ''avi'' n) \<longrightarrow>
        (\<exists>r n. locate_video root = Inr (Some r) \<and> n \<in> set (listing d) \<and>
               fnmatch_ext ''avi'' n \<and> video r = folder_path d @ ''/'' @ n)"
  proof
    assume h: "(\<forall>n\<in>set (listing d). \<not> fnmatch_ext ''mp4'' n) \<and>
      (\<exists>n\<in>set (listing d). fnmatch_ext ''avi'' n)"
    from pick_second [OF nm, of "''mp4''" "''avi''"] h obtain n where
      n: "glob_pref d ''mp4'' ''avi'' \<noteq> []" "n \<in> set (listing d)" "fnmatch_ext ''avi'' n"
         "hd (glob_pref d ''mp4'' ''avi'') = folder_path d @ ''/'' @ n"
      by blast
    then show "\<exists>r n. locate_video root = Inr (Some r) \<and> n \<in> set (listing d) \<and>
               fnmatch_ext ''avi'' n \<and> video r = folder_path d @ ''/'' @ n"
      by (auto simp add: locate_video_latest [OF assms(1)])
  qed
  have i1: "(\<exists>n\<in>set (listing d). fnmatch_ext ''jpg'' n) \<longrightarrow>
        (\<exists>n. locate_image root = Inr (Some (folder_path d @ ''/'' @ n)) \<and>
             n \<in> set (listing d) \<and> fnmatch_ext ''jpg'' n \<and> \<not> fnmatch_ext ''png'' n)"
  proof
    assume "\<exists>n\<in>set (listing d). fnmatch_ext ''jpg'' n"
    from pick_first [OF nm this, of "''png''"] obtain n where
      n: "glob_pref d ''jpg'' ''png'' \<noteq> []" "n \<in> set (listing d)" "fnmatch_ext ''jpg'' n"
         "hd (glob_pref d ''jpg'' ''png'') = folder_path d @ ''/'' @ n"
      by blast
    from n(3) have "\<not> fnmatch_ext ''png'' n"
      by (rule fnmatch_ext_distinct) simp_all
    with n show "\<exists>n. locate_image root = Inr (Some (folder_path d @ ''/'' @ n)) \<and>
             n \<in> set (listing d) \<and> fnmatch_ext ''jpg'' n \<and> \<not> fnmatch_ext ''png'' n"
      by (auto simp add: locate_image_latest [OF assms(1)])
  qed
  have i2: "(\<forall>n\<in>set (listing d). \<not> fnmatch_ext ''jpg'' n) \<and>
      (\<exists>n\<in>set (listing d). fnmatch_ext ''png'' n) \<longrightarrow>
        (\<exists>n. locate_image root = Inr (Some (folder_path d @ ''/'' @ n)) \<and>
             n \<in> set (listing d) \<and> fnmatch_ext ''png'' n)"
  proof
    assume h: "(\<forall>n\<in>set (listing d). \<not> fnmatch_ext ''jpg'' n) \<and>
      (\<exists>n\<in>set (listing d). fnmatch_ext ''png'' n)"
    from pick_second [OF nm, of "''jpg''" "''png''"] h obtain n where
      n: "glob_pref d ''jpg'' ''png'' \<noteq> []" "n \<in> set (listing d)" "fnmatch_ext ''png'' n"
         "hd (glob_pref d ''jpg'' ''png'') = folder_path d @ ''/'' @ n"
      by blast
    then show "\<exists>n. locate_image root = Inr (Some (folder_path d @ ''/'' @ n)) \<and>
             n \<in> set (listing d) \<and> fnmatch_ext ''png'' n"
      by (auto simp add: locate_image_latest [OF assms(1)])
  qed
  from v1 v2 i1 i2 show ?thesis by blast
qed

theorem extension_preference_witness:
  "py_max getmtime (glob_star [quiet_run, video_run]) = Inr video_run \<and>
   locate_image [quiet_run, video_run] = Inr (Some ''runs/detect/predict2/z.jpg'') \<and>
   (\<exists>r. locate_video [quiet_run, video_run] = Inr (Some r) \<and> ends_with ''.mp4'' (video r))"
proof -
  have m: "py_max getmtime (glob_star [quiet_run, video_run]) = Inr video_run"
    by (simp add: eval_defs)
  have g: "\<not> has_magic (name video_run)"
    by (simp add: eval_defs)
  have x: "\<exists>n\<in>set (listing video_run). fnmatch_ext ''mp4'' n"
    by (simp add: eval_defs)
  from extension_preference [OF m g, THEN conjunct1, THEN mp, OF x]
  obtain r n where r: "locate_video [quiet_run, video_run] = Inr (Some r)"
    and n: "fnmatch_ext ''mp4'' n" "video r = folder_path video_run @ ''/'' @ n"
    by blast
  from n have "ends_with ''.mp4'' (video r)"
    by (auto simp: fnmatch_ext_def ends_with_iff)
  with r have v: "\<exists>r. locate_video [quiet_run, video_run] = Inr (Some r) \<and> ends_with ''.mp4'' (video r)"
    by blast
  have i: "locate_image [quiet_run, video_run] = Inr (Some ''runs/detect/predict2/z.jpg'')"
    by (simp add: eval_defs)
  from m i v show ?thesis by simp
qed

text \<open>
  Claim C8. Video mode computes and shows no category verdict: what process_video returns
  is determined by the output root alone, whatever detection results the detector returned,
  and no widget of the video page is a verdict message (neither the warning naming missing
  categories nor the success message), whatever the session holds.
\<close>

theorem video_mode_no_verdict:
  "(snd (predict1 path root) = snd (predict2 path root) \<longrightarrow>
      process_video predict1 path root = process_video predict2 path root) \<and>
   (\<forall>missing. verdict missing \<notin> set (emitted (video_page predict read_file tfile session root0)))"
  by (auto simp: verdict_not_in_video_page process_video_def split: prod.splits)

theorem video_mode_no_verdict_witness:
  "process_video (\<lambda>p s. ([], [video_run])) ''in.mp4'' [] =
   process_video (\<lambda>p s. ([\<lparr>boxes = None, names = Map.empty\<rparr>], [video_run])) ''in.mp4'' [] \<and>
   verdict [] \<notin> set (emitted (video_page (\<lambda>p s. ([], [video_run])) (\<lambda>p. Inr ''bytes'')
                                 ''in.mp4'' None []))"
proof -
  have s: "snd ((\<lambda>p s. ([], [video_run])) ''in.mp4'' ([]::output_root)) =
           snd ((\<lambda>p s. ([\<lparr>boxes = None, names = Map.empty\<rparr>], [video_run])) ''in.mp4'' ([]::output_root))"
    by simp
  note t = video_mode_no_verdict
    [of "\<lambda>p s. ([], [video_run])" "''in.mp4''" "[]"
        "\<lambda>p s. ([\<lparr>boxes = None, names = Map.empty\<rparr>], [video_run])"
        "\<lambda>p s. ([], [video_run])" "\<lambda>p. Inr ''bytes''" "''in.mp4''" None "[]"]
  from t [THEN conjunct1, THEN mp, OF s] t [THEN conjunct2, THEN spec, of "[]"]
  show ?thesis by (rule conjI)
qed

text \<open>
  Claim C9. Only the first result is inspected: the detection flags, and with them the
  whole outcome of process_image, are the same for any two result lists with the same
  first element.
\<close>

theorem first_result_only:
  "detection_info_of (r # rest) = detection_info_of (r # rest') \<and>
   process_image (\<lambda>p s. (r # rest, root')) path root =
   process_image (\<lambda>p s. (r # rest', root')) path root"
proof -
  have d: "detection_info_of (r # rest) = detection_info_of (r # rest')"
    by (simp add: detection_info_of_def)
  then show ?thesis by (simp add: process_image_def split: sum.splits option.splits)
qed

theorem first_result_only_witness:
  "detection_info_of [unnamed_class \<lparr>boxes := None\<rparr>, both_worn] =
     Inr [''mask'' \<mapsto> False, ''helmet'' \<mapsto> False]"
  using first_result_only [of "unnamed_class \<lparr>boxes := None\<rparr>" "[both_worn]" "[]"]
  by (simp add: detection_info_of_def set_flags_def unnamed_class_def)

text \<open>
  Claim C10. Whenever process_image returns, it returns either (None, None) or a non-empty
  path together with a mapping whose keys are exactly "mask" and "helmet". When it does not
  return, it raises the OSError of line 56, for a scanned entry without a modification
  time, or the KeyError of line 71, for a class index of the first result that has no name.
  So process_image returns, with one of the two shapes, whenever every scanned entry has a
  modification time and every class index of the results has a name.
\<close>

theorem process_image_shape:
  "(case fst (process_image predict path root) of
      Inr (p, i) \<Rightarrow>
        (p = None \<and> i = None) \<or>
        (\<exists>q info. p = Some q \<and> q \<noteq> [] \<and> i = Some info \<and> dom info = {''mask'', ''helmet''})
    | Inl e \<Rightarrow>
        (e = OSError \<and>
         (\<exists>x\<in>set (snd (predict path root)). \<not> dot_name (name x) \<and> mtime x = None)) \<or>
        (\<exists>r rest b cs c. fst (predict path root) = r # rest \<and> boxes r = Some b \<and>
            cls b = Some cs \<and> c \<in> set cs \<and> names r c = None \<and> e = KeyError (KInt c))) \<and>
   (classes_named (fst (predict path root)) \<and>
    (\<forall>x\<in>set (snd (predict path root)). \<not> dot_name (name x) \<longrightarrow> mtime x \<noteq> None) \<longrightarrow>
      (\<exists>v. fst (process_image predict path root) = Inr v))"
proof -
  have shape: "(case fst (process_image predict path root) of
      Inr (p, i) \<Rightarrow>
        (p = None \<and> i = None) \<or>
        (\<exists>q info. p = Some q \<and> q \<noteq> [] \<and> i = Some info \<and> dom info = {''mask'', ''helmet''})
    | Inl e \<Rightarrow>
        (e = OSError \<and>
         (\<exists>x\<in>set (snd (predict path root)). \<not> dot_name (name x) \<and> mtime x = None)) \<or>
        (\<exists>r rest b cs c. fst (predict path root) = r # rest \<and> boxes r = Some b \<and>
            cls b = Some cs \<and> c \<in> set cs \<and> names r c = None \<and> e = KeyError (KInt c)))"
  proof (cases "locate_image (snd (predict path root))")
    case (Inl e)
    then have "e = OSError \<and>
         (\<exists>x\<in>set (snd (predict path root)). \<not> dot_name (name x) \<and> mtime x = None)"
      using locate_Inl [of "snd (predict path root)" e] by simp
    with Inl show ?thesis by (simp add: process_image_cases)
  next
    case (Inr v)
    show ?thesis
    proof (cases v)
      case None
      with Inr show ?thesis by (simp add: process_image_cases)
    next
      case (Some q)
      with Inr have q: "q \<noteq> []" using locate_image_nonempty by blast
      show ?thesis
      proof (cases "detection_info_of (fst (predict path root))")
        case e: (Inl e)
        with Inr Some detection_info_of_Inl [OF e] show ?thesis
          by (simp add: process_image_cases)
      next
        case info: (Inr info)
        with Inr Some q detection_info_of_Inr [OF info] show ?thesis
          by (simp add: process_image_cases)
      qed
    qed
  qed
  have returns: "classes_named (fst (predict path root)) \<and>
    (\<forall>x\<in>set (snd (predict path root)). \<not> dot_name (name x) \<longrightarrow> mtime x \<noteq> None) \<longrightarrow>
      (\<exists>v. fst (process_image predict path root) = Inr v)"
  proof
    assume a: "classes_named (fst (predict path root)) \<and>
      (\<forall>x\<in>set (snd (predict path root)). \<not> dot_name (name x) \<longrightarrow> mtime x \<noteq> None)"
    then obtain info where i: "detection_info_of (fst (predict path root)) = Inr info"
      using detection_info_of_named by blast
    have "\<exists>v. locate_image (snd (predict path root)) = Inr v"
    proof (cases "locate_image (snd (predict path root))")
      case (Inl e)
      from locate_Inl [of "snd (predict path root)" e] Inl a show ?thesis by blast
    next
      case (Inr v)
      then show ?thesis by blast
    qed
    then obtain v where v: "locate_image (snd (predict path root)) = Inr v" by blast
    with i show "\<exists>v. fst (process_image predict path root) = Inr v"
      by (cases v) (simp_all add: process_image_cases)
  qed
  from shape returns show ?thesis by (rule conjI)
qed

theorem process_image_shape_witness:
  "classes_named [both_worn] \<and>
   fst (process_image (\<lambda>p s. ([both_worn], s @ [image_run])) ''in.jpg'' []) =
     Inr (Some ''runs/detect/predict4/image0.jpg'', Some [''mask'' \<mapsto> True, ''helmet'' \<mapsto> True]) \<and>
   fst (process_image (\<lambda>p s. ([both_worn], s)) ''in.jpg'' []) = Inr (None, None) \<and>
   fst (process_image (\<lambda>p s. ([unnamed_class], s @ [image_run])) ''in.jpg'' []) =
     Inl (KeyError (KInt 7)) \<and>
   fst (process_image (\<lambda>p s. ([both_worn], s @ [image_run, dangling_link])) ''in.jpg'' []) =
     Inl OSError"
proof -
  have c: "classes_named (fst ((\<lambda>p s. ([both_worn], s @ [image_run])) ''in.jpg'' ([]::output_root))) \<and>
    (\<forall>x\<in>set (snd ((\<lambda>p s. ([both_worn], s @ [image_run])) ''in.jpg'' ([]::output_root))).
        \<not> dot_name (name x) \<longrightarrow> mtime x \<noteq> None)"
    by (simp add: classes_named_def both_worn_def image_run_def)
  from process_image_shape [of "\<lambda>p s. ([both_worn], s @ [image_run])" "''in.jpg''" "[]",
      THEN conjunct2, THEN mp, OF c]
  have r: "\<exists>v. fst (process_image (\<lambda>p s. ([both_worn], s @ [image_run])) ''in.jpg'' []) = Inr v"
    by simp
  have n: "classes_named [both_worn]" by (simp add: classes_named_def both_worn_def)
  have a: "fst (process_image (\<lambda>p s. ([both_worn], s @ [image_run])) ''in.jpg'' []) =
     Inr (Some ''runs/detect/predict4/image0.jpg'', Some [''mask'' \<mapsto> True, ''helmet'' \<mapsto> True])"
    by (auto simp: process_image_def eval_defs both_worn_def detection_info_of_def set_flags_def Let_def)
  have b: "fst (process_image (\<lambda>p s. ([both_worn], s)) ''in.jpg'' []) = Inr (None, None)"
    by (simp add: process_image_def eval_defs)
  have k: "fst (process_image (\<lambda>p s. ([unnamed_class], s @ [image_run])) ''in.jpg'' []) =
     Inl (KeyError (KInt 7))"
    by (simp add: process_image_def eval_defs unnamed_class_def detection_info_of_def)
  have o: "fst (process_image (\<lambda>p s. ([both_worn], s @ [image_run, dangling_link])) ''in.jpg'' []) =
     Inl OSError"
    by (simp add: process_image_def eval_defs)
  from r n a b k o show ?thesis by simp
qed

end
